theory Spec2Isabelle
  imports Main
begin

section \<open>JavaScript strings and the character classes of the regular expressions\<close>

text \<open>
  A JavaScript string is a sequence of UTF-16 code units; the regular expressions of
  \<^verbatim>\<open>toolbox.ts\<close> carry no flag, so they work code unit by code unit. A code unit is a
  natural number here, and \<open>str\<close> turns an ASCII literal into code units. Isabelle's string
  literals cannot hold a backslash or a double quote: \<open>sfm ''tx''\<close> is the text \<^verbatim>\<open>\tx\<close>.
\<close>

type_synonym jsstring = "nat list"

definition str :: "string \<Rightarrow> jsstring" where
  "str s = map of_char s"

definition backslash :: nat where
  "backslash = 92"

definition dquote :: nat where
  "dquote = 34"

definition sfm :: "string \<Rightarrow> jsstring" where
  "sfm s = backslash # str s"

text \<open>\<^verbatim>\<open>\d\<close>, \<^verbatim>\<open>[A-Za-z]\<close>, \<^verbatim>\<open>[0-9A-Za-z]\<close>, \<^verbatim>\<open>\s\<close> (white space and line terminators
  of ECMAScript) and the complement of \<^verbatim>\<open>.\<close> (the line terminators).\<close>

definition isDigit :: "nat \<Rightarrow> bool" where
  "isDigit c \<longleftrightarrow> 48 \<le> c \<and> c \<le> 57"

definition isAlpha :: "nat \<Rightarrow> bool" where
  "isAlpha c \<longleftrightarrow> (65 \<le> c \<and> c \<le> 90) \<or> (97 \<le> c \<and> c \<le> 122)"

definition isAlnum :: "nat \<Rightarrow> bool" where
  "isAlnum c \<longleftrightarrow> isDigit c \<or> isAlpha c"

definition isLineTerminator :: "nat \<Rightarrow> bool" where
  "isLineTerminator c \<longleftrightarrow> c = 0x0A \<or> c = 0x0D \<or> c = 0x2028 \<or> c = 0x2029"

definition isSpace :: "nat \<Rightarrow> bool" where
  "isSpace c \<longleftrightarrow>
     c = 0x09 \<or> c = 0x0B \<or> c = 0x0C \<or> c = 0x20 \<or> c = 0xA0 \<or> c = 0x1680 \<or>
     (0x2000 \<le> c \<and> c \<le> 0x200A) \<or> c = 0x202F \<or> c = 0x205F \<or> c = 0x3000 \<or>
     c = 0xFEFF \<or> isLineTerminator c"

text \<open>\<^verbatim>\<open>parseInt\<close> on what \<^verbatim>\<open>\d+\<close> matched: the decimal value of a digit string.
  JavaScript numbers are doubles; the model keeps the integer, which is what the
  double holds below \<open>2^53\<close>.\<close>

definition parseInt :: "jsstring \<Rightarrow> int" where
  "parseInt ds = foldl (\<lambda>n c. 10 * n + (int c - 48)) 0 ds"

fun stripPrefix :: "jsstring \<Rightarrow> jsstring \<Rightarrow> jsstring option" where
  "stripPrefix [] s = Some s"
| "stripPrefix (p # ps) [] = None"
| "stripPrefix (p # ps) (c # s) = (if p = c then stripPrefix ps s else None)"

subsection \<open>The line pattern \<^verbatim>\<open>/(\\[A-Za-z]+)\s(.*)/\<close>\<close>

text \<open>
  \<open>patternAt\<close> is the match attempt at the head of the string: a backslash, the longest run
  of letters (a shorter run is followed by a letter, never by white space, so backtracking
  finds nothing more), one white-space code unit, then everything up to the first line
  terminator. \<open>matchPattern\<close> is \<^verbatim>\<open>line.match(pattern)\<close>: the leftmost position where the
  attempt succeeds, with the groups 1 and 2.
\<close>

definition patternAt :: "jsstring \<Rightarrow> (jsstring \<times> jsstring) option" where
  "patternAt s =
     (case s of
        [] \<Rightarrow> None
      | c # r \<Rightarrow>
          (let letters = takeWhile isAlpha r; rest = dropWhile isAlpha r in
           if c = backslash \<and> letters \<noteq> [] \<and> rest \<noteq> [] \<and> isSpace (hd rest)
           then Some (c # letters, takeWhile (\<lambda>x. \<not> isLineTerminator x) (tl rest))
           else None))"

fun matchPattern :: "jsstring \<Rightarrow> (jsstring \<times> jsstring) option" where
  "matchPattern [] = None"
| "matchPattern (c # r) =
     (case patternAt (c # r) of Some m \<Rightarrow> Some m | None \<Rightarrow> matchPattern r)"

subsection \<open>The mode pattern \<^verbatim>\<open>/\\vs\s+\d+/\<close>\<close>

definition modePatternAt :: "jsstring \<Rightarrow> bool" where
  "modePatternAt s =
     (case stripPrefix (sfm ''vs'') s of
        None \<Rightarrow> False
      | Some r \<Rightarrow>
          (let ws = takeWhile isSpace r; rest = dropWhile isSpace r in
           ws \<noteq> [] \<and> rest \<noteq> [] \<and> isDigit (hd rest)))"

fun matchModePattern :: "jsstring \<Rightarrow> bool" where
  "matchModePattern [] = False"
| "matchModePattern (c # r) = (modePatternAt (c # r) \<or> matchModePattern r)"

subsection \<open>The verse pattern \<^verbatim>\<open>/\\vs\s+\*?(\d+|\(section title\))([a-z])?.*/\<close>\<close>

text \<open>Only group 1 is read by the code: the longest run of digits, or the literal
  \<^verbatim>\<open>(section title)\<close>. The tail \<^verbatim>\<open>([a-z])?.*\<close> matches anything.\<close>

definition vsPayload :: "jsstring \<Rightarrow> jsstring option" where
  "vsPayload r =
     (let ds = takeWhile isDigit r in
      if ds \<noteq> [] then Some ds
      else (case stripPrefix (str ''(section title)'') r of
              Some _ \<Rightarrow> Some (str ''(section title)'')
            | None \<Rightarrow> None))"

definition vsPatternAt :: "jsstring \<Rightarrow> jsstring option" where
  "vsPatternAt s =
     (case stripPrefix (sfm ''vs'') s of
        None \<Rightarrow> None
      | Some r \<Rightarrow>
          (let ws = takeWhile isSpace r; r1 = dropWhile isSpace r in
           if ws = [] then None
           else vsPayload (case r1 of [] \<Rightarrow> [] | c # r2 \<Rightarrow> if c = 42 then r2 else r1)))"

fun matchVsPattern :: "jsstring \<Rightarrow> jsstring option" where
  "matchVsPattern [] = None"
| "matchVsPattern (c # r) =
     (case vsPatternAt (c # r) of Some g \<Rightarrow> Some g | None \<Rightarrow> matchVsPattern r)"

section \<open>The book object\<close>

text \<open>
  Modelled from the spec: the declarations of \<^verbatim>\<open>books.ts\<close> (\<^verbatim>\<open>bookType\<close>, \<^verbatim>\<open>unitType\<close>,
  \<^verbatim>\<open>objType\<close>) are not part of the sources. The fields are the ones the code reads and
  writes; an optional field is an \<open>option\<close>, \<open>None\<close> where the object has no such field.
  A chapter is a unit that may carry a \<^verbatim>\<open>content\<close> array.
\<close>

datatype unitSubtype = Padding | Verse | Section

record bookType =
  name :: jsstring
  code :: jsstring
  num :: int
  chapters :: nat

record headerType =
  projectName :: jsstring
  bookInfo :: bookType

record unitType =
  type :: unitSubtype
  number :: int
  "text" :: "jsstring option"

record chapterType = unitType +
  content :: "unitType list option"

record objType =
  header :: headerType
  content :: "chapterType list"

datatype modeType = TX_AS_VERSE | VS_AS_VERSE

datatype js_error = TypeError | ENOENT


section \<open>getBookAndChapter\<close>

text \<open>
  The filename pattern \<^verbatim>\<open>/([0-9A-Za-z]+)_(Ch|ch)?(\d+)[_\s]?.*\.txt/\<close>. \<open>dotStarTxt\<close> is
  \<^verbatim>\<open>.*\.txt\<close>; \<open>filenameAt\<close> is the attempt at the head of the string and returns the
  groups 1 and 3. The greedy choices are the only ones that matter: a shorter group 1 is
  followed by an alphanumeric, not by the underscore, and what follows group 3 accepts
  every text that it accepts after a shorter group 3.
\<close>

fun dotStarTxt :: "jsstring \<Rightarrow> bool" where
  "dotStarTxt [] = False"
| "dotStarTxt (c # r) =
     (stripPrefix (str ''.txt'') (c # r) \<noteq> None \<or> (\<not> isLineTerminator c \<and> dotStarTxt r))"

definition filenameAt :: "jsstring \<Rightarrow> (jsstring \<times> jsstring) option" where
  "filenameAt s =
     (let tok = takeWhile isAlnum s; r1 = dropWhile isAlnum s in
      if tok = [] \<or> r1 = [] \<or> hd r1 \<noteq> 95 then None
      else
        (let r2 = tl r1;
             r3 = (if stripPrefix (str ''Ch'') r2 \<noteq> None \<or> stripPrefix (str ''ch'') r2 \<noteq> None
                   then drop 2 r2 else r2);
             ds = takeWhile isDigit r3; r4 = dropWhile isDigit r3 in
         if ds \<noteq> [] \<and>
            ((r4 \<noteq> [] \<and> (hd r4 = 95 \<or> isSpace (hd r4)) \<and> dotStarTxt (tl r4)) \<or> dotStarTxt r4)
         then Some (tok, ds) else None))"



section \<open>initializeBookObj\<close>

definition initializeBookObj :: "(jsstring \<Rightarrow> bookType) \<Rightarrow> jsstring \<Rightarrow> jsstring \<Rightarrow> objType" where
  "initializeBookObj getBookByName bName pName =
     (let bookType = getBookByName bName in
      \<lparr>header = \<lparr>projectName = pName, bookInfo = bookType\<rparr>,
       objType.content = map (\<lambda>i. \<lparr>type = Padding, number = int i, text = None,
                        chapterType.content = None\<rparr>)
                     [0 ..< chapters bookType + 1]\<rparr>)"

section \<open>updateObj\<close>

subsection \<open>Reading the file into lines\<close>

text \<open>
  \<^verbatim>\<open>toolboxFile.replace(/(\r\n){2,}/g, '\r\n')\<close>: every run of two or more CR LF pairs becomes
  one pair. The flag says that the pair just written opened such a run, whose further
  pairs are dropped.
\<close>

fun collapseCRLF :: "bool \<Rightarrow> jsstring \<Rightarrow> jsstring" where
  "collapseCRLF skipping (a # b # r) =
     (if a = 13 \<and> b = 10 then
        (if skipping then collapseCRLF True r
         else if take 2 r = [13, 10] then 13 # 10 # collapseCRLF True r
         else 13 # 10 # collapseCRLF False r)
      else a # collapseCRLF False (b # r))"
| "collapseCRLF skipping s = s"

text \<open>\<^verbatim>\<open>split(/\r?\n/)\<close>: a CR LF pair or a lone LF separates; a lone CR stays in its line.\<close>

fun splitLines :: "jsstring \<Rightarrow> jsstring list" where
  "splitLines [] = [[]]"
| "splitLines [c] = (if c = 10 then [[], []] else [[c]])"
| "splitLines (a # b # s) =
     (if a = 10 then [] # splitLines (b # s)
      else if a = 13 \<and> b = 10 then [] # splitLines s
      else (case splitLines (b # s) of l # ls \<Rightarrow> (a # l) # ls | [] \<Rightarrow> [[a]]))"

definition toolboxLines :: "jsstring \<Rightarrow> jsstring list" where
  "toolboxLines toolboxFile =
     (let toolboxData = splitLines (collapseCRLF False toolboxFile) in
      if last toolboxData = [] then butlast toolboxData else toolboxData)"

subsection \<open>The mode of the file\<close>

text \<open>The \<^verbatim>\<open>every\<close> loop: it returns at the first line that matches.\<close>

fun detectMode :: "jsstring list \<Rightarrow> modeType" where
  "detectMode [] = TX_AS_VERSE"
| "detectMode (line # ls) = (if matchModePattern line then VS_AS_VERSE else detectMode ls)"

subsection \<open>One line\<close>

text \<open>
  The state of the \<^verbatim>\<open>forEach\<close> loop: the book object it mutates, the local \<^verbatim>\<open>verseNum\<close>
  and what \<^verbatim>\<open>console.warn\<close> has written. A \<^verbatim>\<open>TypeError\<close> leaves the loop with the state
  at the throw.
\<close>

record parseState =
  bookObj :: objType
  verseNum :: int
  console :: "jsstring list"

text \<open>\<^verbatim>\<open>bookObj.content[currentChapter].content\<close>, read for its \<^verbatim>\<open>length\<close>: a \<^verbatim>\<open>TypeError\<close>
  when there is no such chapter or the chapter has no \<^verbatim>\<open>content\<close>. The chapter number is
  an array index, a natural number, as \<^verbatim>\<open>getBookAndChapter\<close> produces it.\<close>

definition getContent :: "objType \<Rightarrow> nat \<Rightarrow> js_error + unitType list" where
  "getContent b currentChapter =
     (if currentChapter < length (objType.content b)
      then (case chapterType.content (objType.content b ! currentChapter) of
              None \<Rightarrow> Inl TypeError
            | Some us \<Rightarrow> Inr us)
      else Inl TypeError)"

definition setContent :: "objType \<Rightarrow> nat \<Rightarrow> unitType list \<Rightarrow> objType" where
  "setContent b currentChapter us =
     b\<lparr>objType.content :=
         (objType.content b)[currentChapter :=
            (objType.content b ! currentChapter)\<lparr>chapterType.content := Some us\<rparr>]\<rparr>"

text \<open>\<^verbatim>\<open>unit.text += content\<close>; a missing \<^verbatim>\<open>text\<close> reads as \<^verbatim>\<open>undefined\<close>.\<close>

definition appendText :: "unitType \<Rightarrow> jsstring \<Rightarrow> unitType" where
  "appendText u c =
     u\<lparr>text := Some ((case text u of None \<Rightarrow> str ''undefined'' | Some t \<Rightarrow> t) @ c)\<rparr>"

definition toSection :: "unitType \<Rightarrow> unitType" where
  "toSection u = u\<lparr>type := Section, number := 1\<rparr>"

definition warn :: "jsstring \<Rightarrow> parseState \<Rightarrow> parseState" where
  "warn msg st = st\<lparr>console := console st @ [msg]\<rparr>"

definition unableToParse :: "jsstring \<Rightarrow> jsstring \<Rightarrow> jsstring" where
  "unableToParse line file =
     str ''Unable to parse line: '' @ [dquote] @ line @ [dquote] @
     str '' from '' @ [dquote] @ file @ [dquote] @ str '' - skipping...''"

definition processLine ::
  "modeType \<Rightarrow> jsstring \<Rightarrow> nat \<Rightarrow> jsstring \<Rightarrow> parseState \<Rightarrow> (js_error \<times> parseState) + parseState" where
  "processLine mode file currentChapter line st =
     (case matchPattern line of
        None \<Rightarrow>
          Inr (warn (unableToParse line file) st)
      | Some (marker, lineContent) \<Rightarrow>
          (case getContent (bookObj st) currentChapter of
             Inl e \<Rightarrow> Inl (e, st)
           | Inr us \<Rightarrow>
               (let unit = \<lparr>type = Padding, number = verseNum st, text = Some lineContent\<rparr>;
                    contentLength = length us in
                if marker = sfm ''c'' then Inr st
                else if marker = sfm ''tx'' then
                  (case mode of
                     VS_AS_VERSE \<Rightarrow>
                       (if contentLength > 0 \<and> type (us ! (contentLength - 1)) = Verse \<and>
                           verseNum st = number (us ! (contentLength - 1))
                        then Inr (st\<lparr>bookObj := setContent (bookObj st) currentChapter
                                       (us[contentLength - 1 :=
                                             appendText (us ! (contentLength - 1)) lineContent])\<rparr>)
                        else Inr (st\<lparr>bookObj := setContent (bookObj st) currentChapter
                                       (us @ [unit\<lparr>type := Verse, number := verseNum st,
                                                    text := Some lineContent\<rparr>])\<rparr>))
                   | TX_AS_VERSE \<Rightarrow>
                       Inr (st\<lparr>bookObj := setContent (bookObj st) currentChapter
                                  (us @ [unit\<lparr>type := Verse\<rparr>]),
                               verseNum := verseNum st + 1\<rparr>))
                else if marker = sfm ''vs'' then
                  (if contentLength > 0 then
                     (case mode of
                        TX_AS_VERSE \<Rightarrow>
                          Inr (st\<lparr>bookObj := setContent (bookObj st) currentChapter
                                     (us[contentLength - 1 := toSection (us ! (contentLength - 1))]),
                                  verseNum := verseNum st - 1\<rparr>)
                      | VS_AS_VERSE \<Rightarrow>
                          (case matchVsPattern line of
                             None \<Rightarrow> Inr st
                           | Some g \<Rightarrow>
                               if g = str ''(section title)''
                               then Inr (st\<lparr>bookObj := setContent (bookObj st) currentChapter
                                           (us[contentLength - 1 :=
                                                 toSection (us ! (contentLength - 1))])\<rparr>)
                               else Inr (st\<lparr>verseNum := parseInt g + 1\<rparr>)))
                   else Inr (warn (str ''Warning, section without text'') st))
                else Inr (warn (str ''Skipping unexpected marker:'' @ marker) st))))"

subsection \<open>The loop and the whole function\<close>

fun forEachLine ::
  "modeType \<Rightarrow> jsstring \<Rightarrow> nat \<Rightarrow> jsstring list \<Rightarrow> parseState \<Rightarrow> (js_error \<times> parseState) + parseState" where
  "forEachLine mode file currentChapter [] st = Inr st"
| "forEachLine mode file currentChapter (line # ls) st =
     (case processLine mode file currentChapter line st of
        Inl e \<Rightarrow> Inl e
      | Inr st' \<Rightarrow> forEachLine mode file currentChapter ls st')"

text \<open>\<open>updateObjLines\<close> is \<^verbatim>\<open>updateObj\<close> from the point where \<^verbatim>\<open>toolboxData\<close> is known.\<close>

definition updateObjLines ::
  "objType \<Rightarrow> jsstring \<Rightarrow> jsstring list \<Rightarrow> nat \<Rightarrow> (js_error \<times> parseState) + parseState" where
  "updateObjLines b file toolboxData currentChapter =
     forEachLine (detectMode toolboxData) file currentChapter toolboxData
       \<lparr>bookObj = b, verseNum = 1, console = []\<rparr>"

text \<open>The file system is a map from paths to file texts; \<^verbatim>\<open>readFileSync\<close> throws on a
  path that is not there.\<close>

definition updateObj ::
  "(jsstring \<rightharpoonup> jsstring) \<Rightarrow> objType \<Rightarrow> jsstring \<Rightarrow> nat \<Rightarrow> (js_error \<times> parseState) + parseState" where
  "updateObj fs b file currentChapter =
     (case fs file of
        None \<Rightarrow> Inl (ENOENT, \<lparr>bookObj = b, verseNum = 1, console = []\<rparr>)
      | Some toolboxFile \<Rightarrow> updateObjLines b file (toolboxLines toolboxFile) currentChapter)"

section \<open>Observing a run, and a small book for the examples\<close>

text \<open>The content of chapter \<open>i\<close> after a run, \<open>None\<close> when the run threw or the chapter has
  no content.\<close>

definition chapterAfter :: "(js_error \<times> parseState) + parseState \<Rightarrow> nat \<Rightarrow> unitType list option" where
  "chapterAfter r i =
     (case r of
        Inl _ \<Rightarrow> None
      | Inr st \<Rightarrow> (case getContent (bookObj st) i of Inl _ \<Rightarrow> None | Inr us \<Rightarrow> Some us))"


text \<open>A registry that knows Genesis, with two chapters to keep the terms small, and the book
  object of \<^verbatim>\<open>initializeBookObj\<close> whose chapter 1 has been given a content.\<close>

definition exampleRegistry :: "jsstring \<Rightarrow> bookType" where
  "exampleRegistry n =
     (if n = str ''Gen'' then \<lparr>name = str ''Genesis'', code = str ''GEN'', num = 1, chapters = 2\<rparr>
      else \<lparr>name = str ''Placeholder'', code = str ''000'', num = 0, chapters = 0\<rparr>)"

definition exampleBook :: "unitType list \<Rightarrow> objType" where
  "exampleBook us = setContent (initializeBookObj exampleRegistry (str ''Gen'') (str ''slt'')) 1 us"

definition exampleState :: "unitType list \<Rightarrow> int \<Rightarrow> parseState" where
  "exampleState us n = \<lparr>bookObj = exampleBook us, verseNum = n, console = []\<rparr>"

text \<open>A file system with one Toolbox file, of the single line \<^verbatim>\<open>\tx Hello\<close>.\<close>

definition exampleFs :: "jsstring \<rightharpoonup> jsstring" where
  "exampleFs = [str ''Gen_Ch1.txt'' \<mapsto> sfm ''tx Hello'' @ [13, 10]]"

text \<open>
  The mode detector in the spec's words: the line contains \<^verbatim>\<open>\vs\<close>, then white space, then
  one or more digits.
\<close>

definition spec_vs_digits :: "jsstring \<Rightarrow> bool" where
  "spec_vs_digits line \<longleftrightarrow>
     (\<exists>pre ws ds post. line = pre @ sfm ''vs'' @ ws @ ds @ post \<and>
        ws \<noteq> [] \<and> list_all isSpace ws \<and> ds \<noteq> [] \<and> list_all isDigit ds)"

text \<open>
  The line shape in the spec's words: a backslash-prefixed alphabetic marker, a single
  space, then content; read generously, the marker may start anywhere in the line.
\<close>

definition spec_marker_space_content :: "jsstring \<Rightarrow> bool" where
  "spec_marker_space_content line \<longleftrightarrow>
     (\<exists>pre marker rest. line = pre @ backslash # marker @ 32 # rest \<and>
        marker \<noteq> [] \<and> list_all isAlpha marker)"

text \<open>What a run leaves behind apart from the console: the error if it threw, the book
  object and the verse counter.\<close>

definition withoutConsole ::
  "(js_error \<times> parseState) + parseState \<Rightarrow> (js_error \<times> objType \<times> int) + (objType \<times> int)" where
  "withoutConsole r =
     (case r of
        Inl (e, st) \<Rightarrow> Inl (e, bookObj st, verseNum st)
      | Inr st \<Rightarrow> Inr (bookObj st, verseNum st))"


text \<open>
  What one line can do to the content of the target chapter: push a unit, append text to
  the last unit, or turn the last unit into a section with number 1.
\<close>

inductive contentStep :: "unitType list \<Rightarrow> unitType list \<Rightarrow> bool" where
  push: "contentStep us (us @ [u])"
| appendToLast: "us \<noteq> [] \<Longrightarrow> contentStep us (butlast us @ [appendText (last us) c])"
| reclassifyLast: "us \<noteq> [] \<Longrightarrow> contentStep us (butlast us @ [toSection (last us)])"

text \<open>The mutations in the spec's words: appending units or appending text to the last
  unit, and nothing else.\<close>

inductive spec_appendStep :: "unitType list \<Rightarrow> unitType list \<Rightarrow> bool" where
  spec_push: "spec_appendStep us (us @ [u])"
| spec_appendToLast: "us \<noteq> [] \<Longrightarrow> spec_appendStep us (butlast us @ [appendText (last us) c])"

text \<open>A file system whose one file is the single line \<^verbatim>\<open>\vs (section title)\<close>.\<close>

definition sectionFs :: "jsstring \<rightharpoonup> jsstring" where
  "sectionFs = [str ''Gen_Ch1.txt'' \<mapsto> sfm ''vs (section title)'' @ [13, 10]]"


section \<open>Evaluation rules and basic facts\<close>

lemmas char_simps = str_def sfm_def backslash_def dquote_def isAlpha_def isDigit_def isAlnum_def
  isSpace_def isLineTerminator_def

lemmas regex_simps = char_simps patternAt_def modePatternAt_def vsPatternAt_def vsPayload_def
  filenameAt_def parseInt_def

lemma getContent_setContent:
  "getContent b i = Inr us \<Longrightarrow> getContent (setContent b i us') i = Inr us'"
  by (auto simp: getContent_def setContent_def split: if_splits option.splits)

lemma getContent_exampleBook: "getContent (exampleBook us) (Suc 0) = Inr us"
  by (simp add: exampleBook_def getContent_def setContent_def initializeBookObj_def exampleRegistry_def)

lemma update_last: "us \<noteq> [] \<Longrightarrow> us[length us - Suc 0 := x] = butlast us @ [x]"
  by (induction us rule: rev_induct) (simp_all add: list_update_append)

lemma nth_last: "us \<noteq> [] \<Longrightarrow> us ! (length us - Suc 0) = last us"
  by (simp add: last_conv_nth)

lemma match_vs_section:
  "matchPattern (sfm ''vs (section title)'') = Some (sfm ''vs'', str ''(section title)'')"
  by (simp add: regex_simps)

lemma matchVs_section:
  "matchVsPattern (sfm ''vs (section title)'') = Some (str ''(section title)'')"
  by (simp add: regex_simps)

lemma sfm_neq: "sfm ''vs'' \<noteq> sfm ''c''" "sfm ''vs'' \<noteq> sfm ''tx''" "sfm ''tx'' \<noteq> sfm ''c''"
  by (simp_all add: sfm_def str_def)

section \<open>A \<^verbatim>\<open>\vs\<close> line that makes a section heading\<close>


text \<open>
  Claim C7. In both modes the line \<^verbatim>\<open>\vs (section title)\<close>, met when the target chapter has
  at least one unit, turns the chapter's last unit into a section with number 1.
\<close>

theorem section_title_line:
  assumes "getContent (bookObj st) i = Inr us" and "us \<noteq> []"
  shows "\<exists>st'. processLine mode file i (sfm ''vs (section title)'') st = Inr st' \<and>
               getContent (bookObj st') i =
                 Inr (butlast us @ [(last us)\<lparr>type := Section, number := 1\<rparr>])"
  using assms
  by (cases mode)
     (simp_all add: processLine_def Let_def match_vs_section matchVs_section sfm_neq toSection_def
        update_last nth_last getContent_setContent)


theorem section_title_line_witness:
  "getContent (bookObj (exampleState [\<lparr>type = Verse, number = 4, text = Some (str ''Psalm'')\<rparr>] 5)) 1 =
     Inr [\<lparr>type = Verse, number = 4, text = Some (str ''Psalm'')\<rparr>] \<and>
   [\<lparr>type = Verse, number = 4, text = Some (str ''Psalm'')\<rparr>] \<noteq> [] \<and>
   (\<exists>st'. processLine VS_AS_VERSE (str ''f.txt'') 1 (sfm ''vs (section title)'')
            (exampleState [\<lparr>type = Verse, number = 4, text = Some (str ''Psalm'')\<rparr>] 5) = Inr st' \<and>
         getContent (bookObj st') 1 = Inr [\<lparr>type = Section, number = 1, text = Some (str ''Psalm'')\<rparr>]) \<and>
   (\<exists>st'. processLine TX_AS_VERSE (str ''f.txt'') 1 (sfm ''vs (section title)'')
            (exampleState [\<lparr>type = Verse, number = 4, text = Some (str ''Psalm'')\<rparr>] 5) = Inr st' \<and>
         getContent (bookObj st') 1 = Inr [\<lparr>type = Section, number = 1, text = Some (str ''Psalm'')\<rparr>])"
proof -
  have h: "getContent (bookObj (exampleState [\<lparr>type = Verse, number = 4, text = Some (str ''Psalm'')\<rparr>] 5)) 1 =
     Inr [\<lparr>type = Verse, number = 4, text = Some (str ''Psalm'')\<rparr>]"
    by (simp add: exampleState_def getContent_exampleBook)
  have n: "[\<lparr>type = Verse, number = 4, text = Some (str ''Psalm'')\<rparr>] \<noteq> []"
    by simp
  show ?thesis
    using h section_title_line [OF h n, of VS_AS_VERSE "str ''f.txt''"]
      section_title_line [OF h n, of TX_AS_VERSE "str ''f.txt''"]
    by simp
qed

section \<open>Verse numbers in VS_AS_VERSE mode\<close>

lemma tx_line_vs_mode_push:
  assumes "matchPattern line = Some (sfm ''tx'', c)"
    and "getContent (bookObj st) i = Inr us"
    and "\<not> (us \<noteq> [] \<and> type (last us) = Verse \<and> verseNum st = number (last us))"
  shows "processLine VS_AS_VERSE file i line st =
           Inr (st\<lparr>bookObj := setContent (bookObj st) i
                      (us @ [\<lparr>type = Verse, number = verseNum st, text = Some c\<rparr>])\<rparr>)"
  using assms by (auto simp: processLine_def Let_def sfm_neq nth_last)


lemma vs_line_vs_mode_number:
  assumes "matchPattern line = Some (sfm ''vs'', c)"
    and "getContent (bookObj st) i = Inr us" and "us \<noteq> []"
    and "matchVsPattern line = Some g" and "g \<noteq> str ''(section title)''"
  shows "processLine VS_AS_VERSE file i line st = Inr (st\<lparr>verseNum := parseInt g + 1\<rparr>)"
  using assms by (simp add: processLine_def Let_def sfm_neq)

lemma example_lines:
  "matchPattern (sfm ''vs 5'') = Some (sfm ''vs'', str ''5'')"
  "matchPattern (sfm ''vs 7'') = Some (sfm ''vs'', str ''7'')"
  "matchPattern (sfm ''tx Hello'') = Some (sfm ''tx'', str ''Hello'')"
  "matchPattern (sfm ''tx World'') = Some (sfm ''tx'', str ''World'')"
  "matchVsPattern (sfm ''vs 5'') = Some (str ''5'')"
  "matchVsPattern (sfm ''vs 7'') = Some (str ''7'')"
  "parseInt (str ''5'') = 5" "parseInt (str ''7'') = 7"
  "str ''5'' \<noteq> str ''(section title)''" "str ''7'' \<noteq> str ''(section title)''"
  "detectMode [sfm ''vs 5'', sfm ''tx Hello'', sfm ''vs 7'', sfm ''tx World''] = VS_AS_VERSE"
  by (simp_all add: regex_simps)

lemma run_vs5_tx_vs7_tx:
  assumes "getContent b i = Inr us" and "us \<noteq> []"
    and "\<not> (type (last us) = Verse \<and> number (last us) = 6)"
  shows "chapterAfter
           (updateObjLines b file [sfm ''vs 5'', sfm ''tx Hello'', sfm ''vs 7'', sfm ''tx World''] i) i =
         Some (us @ [\<lparr>type = Verse, number = 6, text = Some (str ''Hello'')\<rparr>,
                     \<lparr>type = Verse, number = 8, text = Some (str ''World'')\<rparr>])"
proof -
  let ?u1 = "us @ [\<lparr>type = Verse, number = 6, text = Some (str ''Hello'')\<rparr>]"
  let ?u2 = "?u1 @ [\<lparr>type = Verse, number = 8, text = Some (str ''World'')\<rparr>]"
  let ?s0 = "\<lparr>bookObj = b, verseNum = 1, console = []\<rparr>"
  let ?s1 = "\<lparr>bookObj = b, verseNum = 6, console = []\<rparr>"
  let ?s2 = "\<lparr>bookObj = setContent b i ?u1, verseNum = 6, console = []\<rparr>"
  let ?s3 = "\<lparr>bookObj = setContent b i ?u1, verseNum = 8, console = []\<rparr>"
  let ?s4 = "\<lparr>bookObj = setContent (setContent b i ?u1) i ?u2, verseNum = 8, console = []\<rparr>"
  have p1: "processLine VS_AS_VERSE file i (sfm ''vs 5'') ?s0 = Inr ?s1"
    using vs_line_vs_mode_number [of "sfm ''vs 5''" "str ''5''" ?s0 i us "str ''5''" "file"] assms
    by (simp add: example_lines)
  have p2: "processLine VS_AS_VERSE file i (sfm ''tx Hello'') ?s1 = Inr ?s2"
    using tx_line_vs_mode_push [of "sfm ''tx Hello''" "str ''Hello''" ?s1 i us "file"] assms
    by (simp add: example_lines)
  have g2: "getContent (bookObj ?s2) i = Inr ?u1"
    using assms by (simp add: getContent_setContent)
  have p3: "processLine VS_AS_VERSE file i (sfm ''vs 7'') ?s2 = Inr ?s3"
    using vs_line_vs_mode_number [of "sfm ''vs 7''" "str ''7''" ?s2 i ?u1 "str ''7''" "file"] g2
    by (simp add: example_lines)
  have p4: "processLine VS_AS_VERSE file i (sfm ''tx World'') ?s3 = Inr ?s4"
    using tx_line_vs_mode_push [of "sfm ''tx World''" "str ''World''" ?s3 i ?u1 "file"] g2
    by (simp add: example_lines)
  have g4: "getContent (bookObj ?s4) i = Inr ?u2"
    using g2 by (simp add: getContent_setContent)
  have run: "forEachLine VS_AS_VERSE file i
               [sfm ''vs 5'', sfm ''tx Hello'', sfm ''vs 7'', sfm ''tx World''] ?s0 = Inr ?s4"
    by (simp only: forEachLine.simps p1 p2 p3 p4 sum.case)
  show ?thesis
    unfolding updateObjLines_def example_lines(11) run chapterAfter_def
    using g4 by simp
qed


text \<open>
  Claim C1, as the code has it. In \<open>VS_AS_VERSE\<close> mode \<^verbatim>\<open>\vs N\<close> sets the counter to
  \<open>N + 1\<close>: on a chapter with at least one unit, whose last unit is not a verse numbered 6,
  the lines \<^verbatim>\<open>\vs 5\<close>, \<^verbatim>\<open>\tx Hello\<close>, \<^verbatim>\<open>\vs 7\<close>, \<^verbatim>\<open>\tx World\<close> append a verse unit
  with number 6 and text \<^verbatim>\<open>Hello\<close> and a second, separate verse unit with number 8 and text
  \<^verbatim>\<open>World\<close>.
\<close>

theorem vs_number_then_tx:
  assumes "getContent b i = Inr us" and "us \<noteq> []"
    and "\<not> (type (last us) = Verse \<and> number (last us) = 6)"
  shows "chapterAfter
           (updateObjLines b file [sfm ''vs 5'', sfm ''tx Hello'', sfm ''vs 7'', sfm ''tx World''] i) i =
         Some (us @ [\<lparr>type = Verse, number = 6, text = Some (str ''Hello'')\<rparr>,
                     \<lparr>type = Verse, number = 8, text = Some (str ''World'')\<rparr>])"
  using assms by (rule run_vs5_tx_vs7_tx)

lemma exampleInit:
  "initializeBookObj exampleRegistry (str ''Gen'') (str ''slt'') =
     \<lparr>header = \<lparr>projectName = str ''slt'',
                bookInfo = \<lparr>name = str ''Genesis'', code = str ''GEN'', num = 1, chapters = 2\<rparr>\<rparr>,
      objType.content =
        [\<lparr>type = Padding, number = 0, text = None, chapterType.content = None\<rparr>,
         \<lparr>type = Padding, number = 1, text = None, chapterType.content = None\<rparr>,
         \<lparr>type = Padding, number = 2, text = None, chapterType.content = None\<rparr>]\<rparr>"
  by (simp add: initializeBookObj_def exampleRegistry_def upt_rec)

text \<open>The same run on a chapter that holds one verse.\<close>

theorem vs_number_then_tx_witness:
  "getContent (exampleBook [\<lparr>type = Verse, number = 1, text = Some (str ''In the beginning'')\<rparr>]) 1 =
     Inr [\<lparr>type = Verse, number = 1, text = Some (str ''In the beginning'')\<rparr>] \<and>
   chapterAfter
     (updateObjLines (exampleBook [\<lparr>type = Verse, number = 1, text = Some (str ''In the beginning'')\<rparr>])
        (str ''Gen_Ch1.txt'') [sfm ''vs 5'', sfm ''tx Hello'', sfm ''vs 7'', sfm ''tx World''] 1) 1 =
     Some [\<lparr>type = Verse, number = 1, text = Some (str ''In the beginning'')\<rparr>,
           \<lparr>type = Verse, number = 6, text = Some (str ''Hello'')\<rparr>,
           \<lparr>type = Verse, number = 8, text = Some (str ''World'')\<rparr>]"
proof -
  let ?us = "[\<lparr>type = Verse, number = 1, text = Some (str ''In the beginning'')\<rparr>]"
  have h1: "getContent (exampleBook ?us) 1 = Inr ?us"
    by (simp add: getContent_exampleBook)
  have h2: "?us \<noteq> []" by simp
  have h3: "\<not> (type (last ?us) = Verse \<and> number (last ?us) = 6)" by simp
  show ?thesis
    using h1 vs_number_then_tx [OF h1 h2 h3, of "str ''Gen_Ch1.txt''"] by simp
qed

section \<open>A chapter without content, and markers without a case\<close>

lemma processLine_throws:
  assumes "matchPattern line = Some (m, c)" and "getContent (bookObj st) i = Inl e"
  shows "processLine mode file i line st = Inl (e, st)"
  using assms by (simp add: processLine_def)

lemma processLine_ignored:
  assumes "matchPattern line = Some (sfm ''c'', c)" and "getContent (bookObj st) i = Inr us"
  shows "processLine mode file i line st = Inr st"
  using assms by (simp add: processLine_def)

lemma processLine_default:
  assumes "matchPattern line = Some (m, c)" and "getContent (bookObj st) i = Inr us"
    and "m \<noteq> sfm ''c''" and "m \<noteq> sfm ''tx''" and "m \<noteq> sfm ''vs''"
  shows "processLine mode file i line st =
           Inr (st\<lparr>console := console st @ [str ''Skipping unexpected marker:'' @ m]\<rparr>)"
  using assms by (simp add: processLine_def warn_def)

lemma getContent_exampleInit:
  "getContent (initializeBookObj exampleRegistry (str ''Gen'') (str ''slt'')) (Suc 0) = Inl TypeError"
  by (simp add: exampleInit getContent_def)

lemma exampleFs_lines:
  "exampleFs (str ''Gen_Ch1.txt'') = Some (sfm ''tx Hello'' @ [13, 10])"
  "toolboxLines (sfm ''tx Hello'' @ [13, 10]) = [sfm ''tx Hello'']"
  "detectMode [sfm ''tx Hello''] = TX_AS_VERSE"
  by (simp_all add: exampleFs_def toolboxLines_def regex_simps)

text \<open>
  Claim C1 as stated fails: after a section heading, \<^verbatim>\<open>\vs 5\<close> and \<^verbatim>\<open>\tx Hello\<close> give a
  verse numbered 6, and \<^verbatim>\<open>\vs 7\<close> and \<^verbatim>\<open>\tx World\<close> a verse numbered 8, not 5 and 7.
\<close>

theorem vs_five_is_not_verse_five:
  "chapterAfter
     (updateObjLines (exampleBook [\<lparr>type = Section, number = 1, text = Some (str ''Creation'')\<rparr>])
        (str ''Gen_Ch1.txt'') [sfm ''vs 5'', sfm ''tx Hello'', sfm ''vs 7'', sfm ''tx World''] 1) 1 =
     Some [\<lparr>type = Section, number = 1, text = Some (str ''Creation'')\<rparr>,
           \<lparr>type = Verse, number = 6, text = Some (str ''Hello'')\<rparr>,
           \<lparr>type = Verse, number = 8, text = Some (str ''World'')\<rparr>] \<and>
   chapterAfter
     (updateObjLines (exampleBook [\<lparr>type = Section, number = 1, text = Some (str ''Creation'')\<rparr>])
        (str ''Gen_Ch1.txt'') [sfm ''vs 5'', sfm ''tx Hello'', sfm ''vs 7'', sfm ''tx World''] 1) 1 \<noteq>
     Some [\<lparr>type = Section, number = 1, text = Some (str ''Creation'')\<rparr>,
           \<lparr>type = Verse, number = 5, text = Some (str ''Hello'')\<rparr>,
           \<lparr>type = Verse, number = 7, text = Some (str ''World'')\<rparr>]"
  using run_vs5_tx_vs7_tx [of "exampleBook [\<lparr>type = Section, number = 1, text = Some (str ''Creation'')\<rparr>]"
      1 "[\<lparr>type = Section, number = 1, text = Some (str ''Creation'')\<rparr>]" "str ''Gen_Ch1.txt''"]
  by (simp add: getContent_exampleBook)

text \<open>
  Claim C2 says that \<^verbatim>\<open>updateObj\<close> returns normally when the target chapter is still the
  padding placeholder of \<^verbatim>\<open>initializeBookObj\<close>. It does not: the placeholder has no
  \<^verbatim>\<open>content\<close>, and the first line that matches the line pattern reads
  \<^verbatim>\<open>bookObj.content[currentChapter].content.length\<close>, which throws a \<^verbatim>\<open>TypeError\<close>
  before anything is written to the book.
\<close>

theorem padding_chapter_throws:
  "updateObj exampleFs (initializeBookObj exampleRegistry (str ''Gen'') (str ''slt'')) (str ''Gen_Ch1.txt'') 1 =
     Inl (TypeError, \<lparr>bookObj = initializeBookObj exampleRegistry (str ''Gen'') (str ''slt''),
                      verseNum = 1, console = []\<rparr>)"
  using processLine_throws [of "sfm ''tx Hello''" "sfm ''tx''" "str ''Hello''"
      "\<lparr>bookObj = initializeBookObj exampleRegistry (str ''Gen'') (str ''slt''), verseNum = 1, console = []\<rparr>"
      1 TypeError TX_AS_VERSE "str ''Gen_Ch1.txt''"]
  by (simp add: updateObj_def updateObjLines_def exampleFs_lines example_lines getContent_exampleInit
      del: detectMode.simps)

lemma more_lines:
  "matchPattern (sfm ''ref Gen 1:1'') = Some (sfm ''ref'', str ''Gen 1:1'')"
  "matchPattern (sfm ''t In the beginning'') = Some (sfm ''t'', str ''In the beginning'')"
  "matchPattern (sfm ''c 1'') = Some (sfm ''c'', str ''1'')"
  "sfm ''ref'' \<noteq> sfm ''c''" "sfm ''ref'' \<noteq> sfm ''tx''" "sfm ''ref'' \<noteq> sfm ''vs''"
  "sfm ''t'' \<noteq> sfm ''c''" "sfm ''t'' \<noteq> sfm ''tx''" "sfm ''t'' \<noteq> sfm ''vs''"
  by (simp_all add: regex_simps)

text \<open>
  Claim C6 says that \<^verbatim>\<open>\c\<close>, \<^verbatim>\<open>\ref\<close> and \<^verbatim>\<open>\t\<close> are each recognised and ignored. Only
  \<^verbatim>\<open>\c\<close> has a case of the switch: \<^verbatim>\<open>\ref\<close> and \<^verbatim>\<open>\t\<close> reach the default branch and are
  reported as unexpected markers (the book and the counter stay as they are).
\<close>

theorem ref_and_t_reach_default:
  "processLine TX_AS_VERSE (str ''Gen_Ch1.txt'') 1 (sfm ''ref Gen 1:1'') (exampleState [] 1) =
     Inr ((exampleState [] 1)\<lparr>console := [str ''Skipping unexpected marker:'' @ sfm ''ref'']\<rparr>) \<and>
   processLine TX_AS_VERSE (str ''Gen_Ch1.txt'') 1 (sfm ''t In the beginning'') (exampleState [] 1) =
     Inr ((exampleState [] 1)\<lparr>console := [str ''Skipping unexpected marker:'' @ sfm ''t'']\<rparr>) \<and>
   processLine TX_AS_VERSE (str ''Gen_Ch1.txt'') 1 (sfm ''c 1'') (exampleState [] 1) =
     Inr (exampleState [] 1)"
proof -
  have g: "getContent (bookObj (exampleState [] 1)) 1 = Inr []"
    by (simp add: exampleState_def getContent_exampleBook)
  have c: "console (exampleState [] 1) = []"
    by (simp add: exampleState_def)
  show ?thesis
    using processLine_default [OF more_lines(1) g more_lines(4,5,6), of TX_AS_VERSE "str ''Gen_Ch1.txt''"]
      processLine_default [OF more_lines(2) g more_lines(7,8,9), of TX_AS_VERSE "str ''Gen_Ch1.txt''"]
      processLine_ignored [OF more_lines(3) g, of TX_AS_VERSE "str ''Gen_Ch1.txt''"]
    by (simp add: c)
qed

section \<open>The mode detector\<close>

lemma stripPrefix_iff: "stripPrefix p s = Some r \<longleftrightarrow> s = p @ r"
  by (induction p s rule: stripPrefix.induct) auto

lemma digit_not_space: "isDigit c \<Longrightarrow> \<not> isSpace c"
  by (auto simp: isDigit_def isSpace_def isLineTerminator_def)

lemma modePatternAt_iff:
  "modePatternAt s \<longleftrightarrow>
     (\<exists>ws ds post. s = sfm ''vs'' @ ws @ ds @ post \<and>
        ws \<noteq> [] \<and> list_all isSpace ws \<and> ds \<noteq> [] \<and> list_all isDigit ds)"
proof
  assume "modePatternAt s"
  then obtain r where r: "s = sfm ''vs'' @ r" and ws: "takeWhile isSpace r \<noteq> []"
    and rest: "dropWhile isSpace r \<noteq> []" and d: "isDigit (hd (dropWhile isSpace r))"
    by (auto simp: modePatternAt_def Let_def stripPrefix_iff split: option.splits)
  let ?ws = "takeWhile isSpace r" and ?rest = "dropWhile isSpace r"
  have "s = sfm ''vs'' @ ?ws @ [hd ?rest] @ tl ?rest"
    using r rest by simp
  moreover have "list_all isSpace ?ws"
    by (simp add: list_all_iff) (meson set_takeWhileD)
  moreover have "list_all isDigit [hd ?rest]" using d by simp
  ultimately show "\<exists>ws ds post. s = sfm ''vs'' @ ws @ ds @ post \<and>
        ws \<noteq> [] \<and> list_all isSpace ws \<and> ds \<noteq> [] \<and> list_all isDigit ds"
    using ws by blast
next
  assume "\<exists>ws ds post. s = sfm ''vs'' @ ws @ ds @ post \<and>
        ws \<noteq> [] \<and> list_all isSpace ws \<and> ds \<noteq> [] \<and> list_all isDigit ds"
  then obtain ws ds post where s: "s = sfm ''vs'' @ ws @ ds @ post"
    and ws: "ws \<noteq> []" "list_all isSpace ws" and ds: "ds \<noteq> []" "list_all isDigit ds"
    by blast
  obtain d ds' where dd: "ds = d # ds'" using ds(1) by (cases ds) auto
  have nd: "\<not> isSpace d" using ds(2) dd by (simp add: digit_not_space)
  have tw: "takeWhile isSpace (ws @ ds @ post) = ws"
    using ws(2) nd dd by (simp add: list_all_iff)
  have dw: "dropWhile isSpace (ws @ ds @ post) = ds @ post"
    using ws(2) nd dd by (simp add: list_all_iff)
  have "stripPrefix (sfm ''vs'') s = Some (ws @ ds @ post)"
    using s by (simp add: stripPrefix_iff)
  then show "modePatternAt s"
    using tw dw ws(1) dd ds(2) by (simp add: modePatternAt_def Let_def)
qed

lemma matchModePattern_iff:
  "matchModePattern s \<longleftrightarrow> (\<exists>pre suf. s = pre @ suf \<and> modePatternAt suf)"
proof (induction s)
  case Nil
  then show ?case by (simp add: modePatternAt_def sfm_def)
next
  case (Cons c r)
  show ?case
  proof
    assume "matchModePattern (c # r)"
    then consider "modePatternAt (c # r)" | "matchModePattern r" by auto
    then show "\<exists>pre suf. c # r = pre @ suf \<and> modePatternAt suf"
    proof cases
      case 1
      then have "c # r = [] @ (c # r) \<and> modePatternAt (c # r)" by simp
      then show ?thesis by blast
    next
      case 2
      then obtain pre suf where "r = pre @ suf" "modePatternAt suf" using Cons.IH by blast
      then have "c # r = (c # pre) @ suf \<and> modePatternAt suf" by simp
      then show ?thesis by blast
    qed
  next
    assume "\<exists>pre suf. c # r = pre @ suf \<and> modePatternAt suf"
    then obtain pre suf where ps: "c # r = pre @ suf" "modePatternAt suf" by blast
    show "matchModePattern (c # r)"
    proof (cases pre)
      case Nil
      then have "suf = c # r" using ps(1) by simp
      then show ?thesis using ps(2) by simp
    next
      case (Cons a pre')
      then have "r = pre' @ suf" using ps by simp
      then have "matchModePattern r" using ps(2) Cons.IH by blast
      then show ?thesis by simp
    qed
  qed
qed

lemma matchModePattern_spec: "matchModePattern line \<longleftrightarrow> spec_vs_digits line"
  unfolding matchModePattern_iff modePatternAt_iff spec_vs_digits_def
  by metis

lemma detectMode_iff: "detectMode ls = VS_AS_VERSE \<longleftrightarrow> (\<exists>l\<in>set ls. matchModePattern l)"
  by (induction ls) auto

text \<open>
  Claim C4. The mode detector returns \<open>VS_AS_VERSE\<close> exactly when some line contains
  \<^verbatim>\<open>\vs\<close> followed by white space and one or more digits, and \<open>TX_AS_VERSE\<close> otherwise; a
  matching line decides the result whatever comes after it. The detector is a function of
  the lines alone.
\<close>

theorem mode_detector:
  "(detectMode ls = VS_AS_VERSE \<longleftrightarrow> (\<exists>l\<in>set ls. spec_vs_digits l)) \<and>
   (detectMode ls = TX_AS_VERSE \<longleftrightarrow> \<not> (\<exists>l\<in>set ls. spec_vs_digits l)) \<and>
   (spec_vs_digits l \<longrightarrow> detectMode (before @ l # after) = VS_AS_VERSE)"
proof -
  have a: "detectMode ls = VS_AS_VERSE \<longleftrightarrow> (\<exists>l\<in>set ls. spec_vs_digits l)" for ls
    by (simp add: detectMode_iff matchModePattern_spec)
  have b: "detectMode ls = TX_AS_VERSE \<longleftrightarrow> detectMode ls \<noteq> VS_AS_VERSE"
    by (cases "detectMode ls") auto
  show ?thesis using a [of ls] a [of "before @ l # after"] b by auto
qed

theorem mode_detector_witness:
  "spec_vs_digits (sfm ''vs 12'') \<and>
   detectMode [sfm ''tx In the beginning'', sfm ''vs 12'', sfm ''tx God''] = VS_AS_VERSE \<and>
   detectMode [sfm ''tx In the beginning'', sfm ''vs (section title)''] = TX_AS_VERSE"
proof -
  have s: "spec_vs_digits (sfm ''vs 12'')"
    unfolding spec_vs_digits_def
    by (rule exI [of _ "[]"], rule exI [of _ "[32]"], rule exI [of _ "str ''12''"],
        rule exI [of _ "[]"]) (simp add: char_simps)
  have t: "detectMode [sfm ''tx In the beginning'', sfm ''vs (section title)''] = TX_AS_VERSE"
    by (simp add: regex_simps)
  show ?thesis
    using s t mode_detector [of "[sfm ''tx In the beginning'']" "sfm ''vs 12''" "[sfm ''tx In the beginning'']" "[sfm ''tx God'']"]
    by simp
qed

section \<open>Lines that do not match the line pattern\<close>

lemma modePatternAt_patternAt: "modePatternAt s \<Longrightarrow> patternAt s \<noteq> None"
proof -
  assume "modePatternAt s"
  then obtain r where r: "s = sfm ''vs'' @ r" and ws: "takeWhile isSpace r \<noteq> []"
    by (auto simp: modePatternAt_def Let_def stripPrefix_iff split: option.splits)
  then obtain x r' where xr: "r = x # r'" and sp: "isSpace x"
    by (cases r) (auto split: if_splits)
  have na: "\<not> isAlpha x" using sp by (auto simp: isAlpha_def isSpace_def isLineTerminator_def)
  have vs: "isAlpha 118" "isAlpha 115" by (simp_all add: isAlpha_def)
  show ?thesis
    using r xr sp na vs by (simp add: patternAt_def sfm_def str_def backslash_def)
qed

lemma matchModePattern_matchPattern: "matchModePattern s \<Longrightarrow> matchPattern s \<noteq> None"
  by (induction s) (auto dest: modePatternAt_patternAt split: option.splits)

lemma detectMode_skip:
  "\<not> matchModePattern bad \<Longrightarrow> detectMode (before @ bad # after) = detectMode (before @ after)"
  by (induction before) auto


lemma processLine_console:
  "withoutConsole (processLine mode file i line (st\<lparr>console := k\<rparr>)) =
   withoutConsole (processLine mode file i line st)"
proof (cases "matchPattern line")
  case None
  then show ?thesis by (simp add: processLine_def withoutConsole_def warn_def)
next
  case (Some mc)
  obtain m c where mc: "mc = (m, c)" by (cases mc)
  show ?thesis
  proof (cases "getContent (bookObj st) i")
    case (Inl e)
    then show ?thesis using Some mc by (simp add: processLine_def withoutConsole_def)
  next
    case (Inr us)
    then show ?thesis
      using Some mc
      by (cases mode)
         (simp_all add: processLine_def withoutConsole_def warn_def Let_def split: option.splits)
  qed
qed

lemma forEachLine_console:
  "bookObj st = bookObj st' \<Longrightarrow> verseNum st = verseNum st' \<Longrightarrow>
   withoutConsole (forEachLine mode file i ls st) = withoutConsole (forEachLine mode file i ls st')"
proof (induction ls arbitrary: st st')
  case Nil
  then show ?case by (simp add: withoutConsole_def)
next
  case (Cons l ls)
  have "st' = st\<lparr>console := console st'\<rparr>"
    using Cons.prems by simp
  then have eq: "withoutConsole (processLine mode file i l st') =
                 withoutConsole (processLine mode file i l st)"
    using processLine_console [where st = st and k = "console st'"] by simp
  show ?case
  proof (cases "processLine mode file i l st")
    case (Inl a)
    then show ?thesis
      using eq by (cases "processLine mode file i l st'")
        (auto simp: withoutConsole_def split: prod.splits)
  next
    case (Inr s)
    then obtain s' where s': "processLine mode file i l st' = Inr s'"
      and same: "bookObj s = bookObj s'" "verseNum s = verseNum s'"
      using eq by (cases "processLine mode file i l st'")
        (auto simp: withoutConsole_def split: prod.splits)
    then show ?thesis
      using Inr Cons.IH [OF same] by simp
  qed
qed

lemma forEachLine_append:
  "forEachLine mode file i (xs @ ys) st =
     (case forEachLine mode file i xs st of
        Inl e \<Rightarrow> Inl e
      | Inr s \<Rightarrow> forEachLine mode file i ys s)"
  by (induction xs arbitrary: st) (auto split: sum.splits)

lemma processLine_no_match:
  "matchPattern bad = None \<Longrightarrow>
   processLine mode file i bad st = Inr (st\<lparr>console := console st @ [unableToParse bad file]\<rparr>)"
  by (simp add: processLine_def warn_def)

text \<open>
  Claim C8, as the code has it. A line that does not match the line pattern of the code (a
  backslash, one or more letters, one white-space code unit of any kind, then the rest,
  found anywhere in the line) is skipped with the warning: it changes neither the book nor
  the verse counter and does not throw, and the run over the whole file leaves the same
  book and counter (or throws the same error) as the run without that line.
\<close>

theorem malformed_line_skipped:
  assumes "matchPattern bad = None"
  shows "processLine mode file i bad st =
           Inr (st\<lparr>console := console st @ [unableToParse bad file]\<rparr>) \<and>
         withoutConsole (updateObjLines b file (before @ bad # after) i) =
           withoutConsole (updateObjLines b file (before @ after) i)"
proof -
  let ?s0 = "\<lparr>bookObj = b, verseNum = 1, console = []\<rparr>"
  let ?m = "detectMode (before @ after)"
  have step: "processLine m file i bad s = Inr (s\<lparr>console := console s @ [unableToParse bad file]\<rparr>)"
    for m s using assms by (rule processLine_no_match)
  have "\<not> matchModePattern bad"
    using assms matchModePattern_matchPattern by blast
  then have mode: "detectMode (before @ bad # after) = ?m"
    by (rule detectMode_skip)
  have "withoutConsole (forEachLine ?m file i (before @ bad # after) ?s0) =
        withoutConsole (forEachLine ?m file i (before @ after) ?s0)"
  proof (cases "forEachLine ?m file i before ?s0")
    case (Inl e)
    then show ?thesis by (simp add: forEachLine_append)
  next
    case (Inr s)
    have "withoutConsole (forEachLine ?m file i after (s\<lparr>console := console s @ [unableToParse bad file]\<rparr>)) =
          withoutConsole (forEachLine ?m file i after s)"
      by (rule forEachLine_console) simp_all
    then show ?thesis using Inr by (simp add: forEachLine_append step)
  qed
  then show ?thesis
    using step mode by (simp add: updateObjLines_def)
qed

lemma plain_line: "matchPattern (str ''Hello world'') = None"
  by (simp add: regex_simps)

theorem malformed_line_skipped_witness:
  "matchPattern (str ''Hello world'') = None \<and>
   processLine VS_AS_VERSE (str ''Gen_Ch1.txt'') 1 (str ''Hello world'') (exampleState [] 1) =
     Inr ((exampleState [] 1)\<lparr>console := [unableToParse (str ''Hello world'') (str ''Gen_Ch1.txt'')]\<rparr>) \<and>
   withoutConsole (updateObjLines (exampleBook []) (str ''Gen_Ch1.txt'')
                     [sfm ''tx In the'', str ''Hello world'', sfm ''tx beginning''] 1) =
   withoutConsole (updateObjLines (exampleBook []) (str ''Gen_Ch1.txt'')
                     [sfm ''tx In the'', sfm ''tx beginning''] 1)"
  using plain_line
    malformed_line_skipped [OF plain_line, of VS_AS_VERSE "str ''Gen_Ch1.txt''" 1 "exampleState [] 1"
      "exampleBook []" "[sfm ''tx In the'']" "[sfm ''tx beginning'']"]
  by (simp add: exampleState_def)

lemma tx_line_tx_mode:
  assumes "matchPattern line = Some (sfm ''tx'', c)" and "getContent (bookObj st) i = Inr us"
  shows "processLine TX_AS_VERSE file i line st =
           Inr (st\<lparr>bookObj := setContent (bookObj st) i
                      (us @ [\<lparr>type = Verse, number = verseNum st, text = Some c\<rparr>]),
                   verseNum := verseNum st + 1\<rparr>)"
  using assms by (simp add: processLine_def Let_def sfm_neq)

lemma tab_line: "matchPattern (sfm ''tx'' @ 9 # str ''Hello'') = Some (sfm ''tx'', str ''Hello'')"
  by (simp add: regex_simps)

text \<open>
  Claim C8 as stated fails: the line \<^verbatim>\<open>\tx\<close>, a tab, \<^verbatim>\<open>Hello\<close> has no space at all, so it is
  not of the shape "marker, a single space, content", and yet it is not skipped: it
  appends a verse and advances the counter.
\<close>

theorem tab_separated_line_is_processed:
  "\<not> spec_marker_space_content (sfm ''tx'' @ 9 # str ''Hello'') \<and>
   processLine TX_AS_VERSE (str ''Gen_Ch1.txt'') 1 (sfm ''tx'' @ 9 # str ''Hello'') (exampleState [] 1) =
     Inr \<lparr>bookObj = setContent (exampleBook []) 1
                      [\<lparr>type = Verse, number = 1, text = Some (str ''Hello'')\<rparr>],
          verseNum = 2, console = []\<rparr>"
proof -
  have "32 \<notin> set (sfm ''tx'' @ 9 # str ''Hello'')"
    by (simp add: char_simps)
  then have a: "\<not> spec_marker_space_content (sfm ''tx'' @ 9 # str ''Hello'')"
    unfolding spec_marker_space_content_def by (metis in_set_conv_decomp append_Cons append.assoc)
  have g: "getContent (bookObj (exampleState [] 1)) 1 = Inr []"
    by (simp add: exampleState_def getContent_exampleBook)
  show ?thesis
    using a tx_line_tx_mode [OF tab_line g, of "str ''Gen_Ch1.txt''"]
    by (simp add: exampleState_def)
qed

section \<open>The result of getBookAndChapter\<close>










section \<open>What a run leaves untouched\<close>

lemma chapter_content_same:
  "chapterType.content c = Some us \<Longrightarrow> c\<lparr>chapterType.content := Some us\<rparr> = c"
  by (cases c) simp

lemma setContent_same: "getContent b i = Inr us \<Longrightarrow> setContent b i us = b"
  by (auto simp: getContent_def setContent_def chapter_content_same
      split: if_splits option.splits)

lemma setContent_twice: "setContent (setContent b i us) i us' = setContent b i us'"
  by (cases "i < length (objType.content b)") (simp_all add: setContent_def not_less list_update_beyond)

lemma setContent_frame:
  "header (setContent b i us) = header b"
  "length (objType.content (setContent b i us)) = length (objType.content b)"
  "j \<noteq> i \<Longrightarrow> objType.content (setContent b i us) ! j = objType.content b ! j"
  "i < length (objType.content b) \<Longrightarrow>
     objType.content (setContent b i us) ! i =
       (objType.content b ! i)\<lparr>chapterType.content := Some us\<rparr>"
  by (simp_all add: setContent_def)

lemma processLine_frame:
  assumes "getContent (bookObj st) i = Inr us"
  shows "\<exists>st' us'. processLine mode file i line st = Inr st' \<and>
           bookObj st' = setContent (bookObj st) i us' \<and> (us' = us \<or> contentStep us us')"
proof (cases "matchPattern line")
  case None
  have "bookObj st = setContent (bookObj st) i us"
    using assms by (simp add: setContent_same)
  then show ?thesis using None by (auto simp: processLine_def warn_def)
next
  case (Some mc)
  obtain m c where mc: "mc = (m, c)" by (cases mc)
  have same: "bookObj st = setContent (bookObj st) i us"
    using assms by (simp add: setContent_same)
  have pushed: "contentStep us (us @ [u])" for u by (rule contentStep.push)
  have merged: "us \<noteq> [] \<Longrightarrow> contentStep us (us[length us - Suc 0 := appendText (us ! (length us - Suc 0)) c])"
    using contentStep.appendToLast [of us c] by (simp add: update_last nth_last)
  have sect: "us \<noteq> [] \<Longrightarrow> contentStep us (us[length us - Suc 0 := toSection (us ! (length us - Suc 0))])"
    using contentStep.reclassifyLast [of us] by (simp add: update_last nth_last)
  consider "m = sfm ''c''" | "m = sfm ''tx''" | "m = sfm ''vs''"
    | "m \<noteq> sfm ''c''" "m \<noteq> sfm ''tx''" "m \<noteq> sfm ''vs''" by blast
  then show ?thesis
  proof cases
    case 1
    then show ?thesis using Some mc assms same by (auto simp: processLine_def)
  next
    case 2
    show ?thesis
    proof (cases mode)
      case TX_AS_VERSE
      then show ?thesis
        using Some mc assms 2 pushed by (auto simp: processLine_def Let_def sfm_neq)
    next
      case VS_AS_VERSE
      then show ?thesis
        using Some mc assms 2 pushed merged
        by (cases "us = []") (auto simp: processLine_def Let_def sfm_neq)
    qed
  next
    case 3
    show ?thesis
    proof (cases "us = []")
      case True
      then show ?thesis
        using Some mc assms 3 same by (auto simp: processLine_def Let_def sfm_neq warn_def)
    next
      case False
      show ?thesis
      proof (cases mode)
        case TX_AS_VERSE
        then show ?thesis
          using Some mc assms 3 False sect by (auto simp: processLine_def Let_def sfm_neq)
      next
        case VS_AS_VERSE
        then show ?thesis
          using Some mc assms 3 False sect same
          by (cases "matchVsPattern line") (auto simp: processLine_def Let_def sfm_neq)
      qed
    qed
  next
    case 4
    then show ?thesis
      using Some mc assms same by (auto simp: processLine_def Let_def warn_def)
  qed
qed

lemma processLine_no_content:
  assumes "getContent (bookObj st) i = Inl e"
  shows "processLine mode file i line st = Inl (e, st) \<or>
         (\<exists>st'. processLine mode file i line st = Inr st' \<and> bookObj st' = bookObj st)"
  using assms by (cases "matchPattern line") (auto simp: processLine_def warn_def)

lemma forEachLine_frame:
  assumes "getContent (bookObj st) i = Inr us"
  shows "\<exists>st' us'. forEachLine mode file i ls st = Inr st' \<and>
           bookObj st' = setContent (bookObj st) i us' \<and> contentStep\<^sup>*\<^sup>* us us'"
  using assms
proof (induction ls arbitrary: st us)
  case Nil
  then have "bookObj st = setContent (bookObj st) i us" by (simp add: setContent_same)
  then show ?case by auto
next
  case (Cons l ls)
  from processLine_frame [OF Cons.prems, of mode "file" l]
  obtain st1 u1 where p: "processLine mode file i l st = Inr st1"
    and b1: "bookObj st1 = setContent (bookObj st) i u1"
    and s1: "u1 = us \<or> contentStep us u1" by blast
  have g1: "getContent (bookObj st1) i = Inr u1"
    using Cons.prems b1 by (simp add: getContent_setContent)
  from Cons.IH [OF g1]
  obtain st' us' where f: "forEachLine mode file i ls st1 = Inr st'"
    and b': "bookObj st' = setContent (bookObj st1) i us'"
    and s': "contentStep\<^sup>*\<^sup>* u1 us'" by blast
  have "bookObj st' = setContent (bookObj st) i us'"
    using b' b1 by (simp add: setContent_twice)
  moreover have "contentStep\<^sup>*\<^sup>* us us'"
    using s1 s' by (auto intro: converse_rtranclp_into_rtranclp)
  ultimately show ?case using p f by auto
qed

lemma forEachLine_no_content:
  assumes "getContent (bookObj st) i = Inl e"
  shows "\<exists>st'. (forEachLine mode file i ls st = Inl (e, st') \<or>
               forEachLine mode file i ls st = Inr st') \<and> bookObj st' = bookObj st"
  using assms
proof (induction ls arbitrary: st)
  case Nil
  then show ?case by simp
next
  case (Cons l ls)
  from processLine_no_content [OF Cons.prems, of mode "file" l]
  consider "processLine mode file i l st = Inl (e, st)"
    | st1 where "processLine mode file i l st = Inr st1" "bookObj st1 = bookObj st" by blast
  then show ?case
  proof cases
    case 1
    then show ?thesis by simp
  next
    case 2
    then have "getContent (bookObj st1) i = Inl e" using Cons.prems by simp
    from Cons.IH [OF this] show ?thesis using 2 by auto
  qed
qed

lemma contentStep_length: "contentStep us us' \<Longrightarrow> length us \<le> length us'"
  by (induction rule: contentStep.induct) simp_all

lemma contentStep_take:
  assumes "contentStep us us'" and "n \<le> length us"
  shows "take (n - 1) us' = take (n - 1) us"
  using assms
proof (induction rule: contentStep.induct)
  case (push us u)
  then show ?case by simp
next
  case (appendToLast us c)
  then have "n - 1 < length us" by (cases us) auto
  then show ?case by (simp add: take_butlast)
next
  case (reclassifyLast us)
  then have "n - 1 < length us" by (cases us) auto
  then show ?case by (simp add: take_butlast)
qed

lemma contentSteps_prefix:
  "contentStep\<^sup>*\<^sup>* us us' \<Longrightarrow>
     length us \<le> length us' \<and> take (length us - 1) us' = butlast us"
proof (induction rule: rtranclp_induct)
  case base
  then show ?case by (simp add: butlast_conv_take)
next
  case (step y z)
  then show ?case
    using contentStep_length [of y z] contentStep_take [of y z "length us"] by simp
qed

text \<open>
  Claim C10, as the code has it. A run of \<^verbatim>\<open>updateObj\<close> leaves the header of the book and
  every chapter other than the target unchanged, and of the target chapter it changes the
  content only: by pushing units, by appending text to the last unit, and by turning the
  last unit into a section with number 1. All units before the last one of the old content
  stay as they are. A run that throws has changed nothing.
\<close>

theorem updateObj_frame:
  "(case updateObj fs b path i of
      Inl (e, st) \<Rightarrow> bookObj st = b
    | Inr st \<Rightarrow>
        header (bookObj st) = header b \<and>
        length (objType.content (bookObj st)) = length (objType.content b) \<and>
        (\<forall>j. j \<noteq> i \<longrightarrow> objType.content (bookObj st) ! j = objType.content b ! j) \<and>
        (case getContent b i of
           Inl _ \<Rightarrow> bookObj st = b
         | Inr us \<Rightarrow>
             (\<exists>us'. objType.content (bookObj st) ! i =
                      (objType.content b ! i)\<lparr>chapterType.content := Some us'\<rparr> \<and>
                    contentStep\<^sup>*\<^sup>* us us' \<and>
                    length us \<le> length us' \<and> take (length us - 1) us' = butlast us)))"
proof (cases "fs path")
  case None
  then show ?thesis by (simp add: updateObj_def)
next
  case (Some toolboxFile)
  let ?s0 = "\<lparr>bookObj = b, verseNum = 1, console = []\<rparr>"
  let ?ls = "toolboxLines toolboxFile"
  have run: "updateObj fs b path i = forEachLine (detectMode ?ls) path i ?ls ?s0"
    using Some by (simp add: updateObj_def updateObjLines_def)
  show ?thesis
  proof (cases "getContent b i")
    case (Inl e)
    then have "getContent (bookObj ?s0) i = Inl e" by simp
    from forEachLine_no_content [OF this, of "detectMode ?ls" path ?ls]
    show ?thesis using Inl run by auto
  next
    case (Inr us)
    then have "getContent (bookObj ?s0) i = Inr us" by simp
    from forEachLine_frame [OF this, of "detectMode ?ls" path ?ls]
    obtain st' us' where f: "updateObj fs b path i = Inr st'"
      and b': "bookObj st' = setContent b i us'" and s: "contentStep\<^sup>*\<^sup>* us us'"
      using run by auto
    have i: "i < length (objType.content b)"
      using Inr by (auto simp: getContent_def split: if_splits)
    show ?thesis
      using f b' s Inr i contentSteps_prefix [OF s] by (simp add: setContent_frame) blast
  qed
qed

lemma exampleFs_run:
  "updateObj exampleFs (exampleBook []) (str ''Gen_Ch1.txt'') 1 =
     Inr \<lparr>bookObj = setContent (exampleBook []) 1
                       [\<lparr>type = Verse, number = 1, text = Some (str ''Hello'')\<rparr>],
          verseNum = 2, console = []\<rparr>"
  using tx_line_tx_mode [OF example_lines(3), of "\<lparr>bookObj = exampleBook [], verseNum = 1, console = []\<rparr>"
      1 "[]" "str ''Gen_Ch1.txt''"]
  by (simp add: updateObj_def updateObjLines_def exampleFs_lines getContent_exampleBook
      del: detectMode.simps)

theorem updateObj_frame_witness:
  "updateObj exampleFs (exampleBook []) (str ''Gen_Ch1.txt'') 1 =
     Inr \<lparr>bookObj = setContent (exampleBook []) 1
                       [\<lparr>type = Verse, number = 1, text = Some (str ''Hello'')\<rparr>],
          verseNum = 2, console = []\<rparr> \<and>
   header (setContent (exampleBook []) 1 [\<lparr>type = Verse, number = 1, text = Some (str ''Hello'')\<rparr>]) =
     header (exampleBook []) \<and>
   (2::nat) \<noteq> 1 \<and>
   objType.content (setContent (exampleBook []) 1
       [\<lparr>type = Verse, number = 1, text = Some (str ''Hello'')\<rparr>]) ! 2 =
     objType.content (exampleBook []) ! 2 \<and>
   getContent (exampleBook []) 1 = Inr [] \<and>
   (\<exists>us'. objType.content (setContent (exampleBook []) 1
               [\<lparr>type = Verse, number = 1, text = Some (str ''Hello'')\<rparr>]) ! 1 =
             (objType.content (exampleBook []) ! 1)\<lparr>chapterType.content := Some us'\<rparr> \<and>
           contentStep\<^sup>*\<^sup>* [] us')"
proof -
  let ?b' = "setContent (exampleBook []) 1 [\<lparr>type = Verse, number = 1, text = Some (str ''Hello'')\<rparr>]"
  have g: "getContent (exampleBook []) 1 = Inr []"
    by (simp add: getContent_exampleBook)
  have fr: "header ?b' = header (exampleBook []) \<and>
        (\<forall>j. j \<noteq> 1 \<longrightarrow> objType.content ?b' ! j = objType.content (exampleBook []) ! j) \<and>
        (\<exists>us'. objType.content ?b' ! 1 =
                 (objType.content (exampleBook []) ! 1)\<lparr>chapterType.content := Some us'\<rparr> \<and>
               contentStep\<^sup>*\<^sup>* [] us')"
    using updateObj_frame [where fs = exampleFs and b = "exampleBook []"
        and path = "str ''Gen_Ch1.txt''" and i = 1] g
    unfolding exampleFs_run by auto
  then have "objType.content ?b' ! 2 = objType.content (exampleBook []) ! 2"
    by simp
  then show ?thesis
    using fr g exampleFs_run by simp
qed

lemma tx_mode_vs_reclassifies:
  assumes "matchPattern line = Some (sfm ''vs'', c)" and "getContent (bookObj st) i = Inr us"
    and "us \<noteq> []"
  shows "processLine TX_AS_VERSE file i line st =
           Inr (st\<lparr>bookObj := setContent (bookObj st) i (butlast us @ [toSection (last us)]),
                   verseNum := verseNum st - 1\<rparr>)"
  using assms by (simp add: processLine_def Let_def sfm_neq update_last nth_last)

lemma sectionFs_lines:
  "sectionFs (str ''Gen_Ch1.txt'') = Some (sfm ''vs (section title)'' @ [13, 10])"
  "toolboxLines (sfm ''vs (section title)'' @ [13, 10]) = [sfm ''vs (section title)'']"
  "detectMode [sfm ''vs (section title)''] = TX_AS_VERSE"
  by (simp_all add: sectionFs_def toolboxLines_def regex_simps)

lemma spec_appendStep_first:
  "spec_appendStep us us' \<Longrightarrow> us \<noteq> [] \<Longrightarrow> us' \<noteq> [] \<and> type (hd us') = type (hd us)"
proof (induction rule: spec_appendStep.induct)
  case (spec_push us u)
  then show ?case by simp
next
  case (spec_appendToLast us c)
  then show ?case
    by (cases us rule: rev_cases; cases "butlast us") (auto simp: appendText_def)
qed

lemma spec_appendSteps_first:
  "spec_appendStep\<^sup>*\<^sup>* us us' \<Longrightarrow> us \<noteq> [] \<Longrightarrow> us' \<noteq> [] \<and> type (hd us') = type (hd us)"
  by (induction rule: rtranclp_induct) (auto dest: spec_appendStep_first)

text \<open>
  Claim C10 as stated fails: a file of the one line \<^verbatim>\<open>\vs (section title)\<close>, parsed into a
  chapter that holds a verse, turns that verse into a section with number 1, which no
  sequence of unit appends and text appends can do.
\<close>

theorem reclassification_is_not_an_append:
  "chapterAfter
     (updateObj sectionFs (exampleBook [\<lparr>type = Verse, number = 3, text = Some (str ''Intro'')\<rparr>])
        (str ''Gen_Ch1.txt'') 1) 1 =
     Some [\<lparr>type = Section, number = 1, text = Some (str ''Intro'')\<rparr>] \<and>
   \<not> spec_appendStep\<^sup>*\<^sup>* [\<lparr>type = Verse, number = 3, text = Some (str ''Intro'')\<rparr>]
                         [\<lparr>type = Section, number = 1, text = Some (str ''Intro'')\<rparr>]"
proof -
  let ?u = "\<lparr>type = Verse, number = 3, text = Some (str ''Intro'')\<rparr>"
  have g: "getContent (bookObj \<lparr>bookObj = exampleBook [?u], verseNum = 1, console = []\<rparr>) 1 = Inr [?u]"
    by (simp add: getContent_exampleBook)
  have a: "chapterAfter (updateObj sectionFs (exampleBook [?u]) (str ''Gen_Ch1.txt'') 1) 1 =
             Some [\<lparr>type = Section, number = 1, text = Some (str ''Intro'')\<rparr>]"
    using tx_mode_vs_reclassifies [OF match_vs_section g, of "str ''Gen_Ch1.txt''"]
    by (simp add: updateObj_def updateObjLines_def sectionFs_lines chapterAfter_def toSection_def
        getContent_setContent getContent_exampleBook del: detectMode.simps)
  have b: "\<not> spec_appendStep\<^sup>*\<^sup>* [?u] [\<lparr>type = Section, number = 1, text = Some (str ''Intro'')\<rparr>]"
    using spec_appendSteps_first [of "[?u]" "[\<lparr>type = Section, number = 1, text = Some (str ''Intro'')\<rparr>]"]
    by auto
  show ?thesis using a b by simp
qed

section \<open>Merging of text lines in VS_AS_VERSE mode\<close>











end
